theory Spec2Isabelle
  imports Main
begin

section \<open>Python values\<close>

text \<open>
  Exceptions of the interpreter that the modelled code can raise, as values; \<open>OSError\<close>
  stands for it and its subclasses (a file that cannot be opened). A fault
  raised inside code that the repository imports but that is not part of the modelled
  files (the decoders, the timer, the COMET model) is \<open>External\<close> with its message.
\<close>

datatype py_error =
    OSError
  | ZeroDivisionError
  | AssertionError
  | TypeError
  | IndexError
  | ValueError
  | External string

text \<open>
  \<open>str.strip()\<close> removes leading and trailing whitespace. A \<open>char\<close> is a code point
  below 256; Python's \<open>str.isspace\<close> holds there for U+0009..U+000D, U+001C..U+0020,
  U+0085 and U+00A0.
\<close>

definition isspace :: "char \<Rightarrow> bool" where
  "isspace c =
     (let n = (of_char c :: nat)
      in (9 \<le> n \<and> n \<le> 13) \<or> (28 \<le> n \<and> n \<le> 32) \<or> n = 133 \<or> n = 160)"

definition strip :: "string \<Rightarrow> string" where
  "strip s = rev (dropWhile isspace (rev (dropWhile isspace s)))"

text \<open>
  \<open>xs[lo:hi]\<close>: a negative bound counts from the end, and both bounds are clipped to
  \<open>0..len(xs)\<close>; an empty range gives the empty list. Slicing never raises.
\<close>

definition slice_bound :: "nat \<Rightarrow> int \<Rightarrow> nat" where
  "slice_bound n k = (if k < 0 then nat (max 0 (int n + k)) else min n (nat k))"

definition py_slice :: "'a list \<Rightarrow> int \<Rightarrow> int \<Rightarrow> 'a list" where
  "py_slice xs lo hi =
     (let a = slice_bound (length xs) lo; b = slice_bound (length xs) hi
      in take (b - a) (drop a xs))"

text \<open>\<open>x or y\<close> on an optional integer: \<open>None\<close> and \<open>0\<close> are false.\<close>

definition py_or :: "int option \<Rightarrow> int \<Rightarrow> int" where
  "py_or x y = (case x of None \<Rightarrow> y | Some v \<Rightarrow> if v = 0 then y else v)"

section \<open>The COMET-QE metric (mbrs/metrics/cometqe.py)\<close>

text \<open>The dataclass \<open>MetricCOMETQE.Config\<close> with its defaults.\<close>

record Config =
  model :: string
  batch_size :: int
  float16 :: bool
  cpu :: bool

definition Config_default :: Config where
  "Config_default =
     \<lparr>model = ''Unbabel/wmt22-cometkiwi-da'', batch_size = 64, float16 = False, cpu = False\<rparr>"

text \<open>
  \<open>Config(**kwargs)\<close> as the command line builds it: either no keyword at all or the two
  keywords \<open>batch_size\<close> and \<open>float16\<close>.
\<close>

definition MetricCOMETQE_Config :: "(int \<times> bool) option \<Rightarrow> Config" where
  "MetricCOMETQE_Config kw =
     (case kw of
        None \<Rightarrow> Config_default
      | Some (b, f) \<Rightarrow> Config_default\<lparr>batch_size := b, float16 := f\<rparr>)"

text \<open>The name under which the class is registered: \<open>@register("comet_qe")\<close>.\<close>

definition MetricCOMETQE_name :: string where
  "MetricCOMETQE_name = ''comet_qe''"

text \<open>One sample handed to the scorer: \<open>{"src": source, "mt": hyp}\<close>.\<close>

record sample =
  src :: string
  mt :: string

text \<open>
  The scorer is the third-party COMET model: \<open>predict data batch_size gpus\<close> stands for
  \<open>self.scorer.predict(data, batch_size=..., gpus=...).scores\<close>, a list of scores or a
  fault. Scores are kept abstract (\<open>'sc\<close>).
\<close>

type_synonym 'sc scorer = "sample list \<Rightarrow> int \<Rightarrow> int \<Rightarrow> py_error + 'sc list"

text \<open>
  \<open>np.array(xs).reshape(n)\<close> on a flat list: the same elements when there are \<open>n\<close> of
  them, \<open>ValueError\<close> otherwise.
\<close>

definition reshape :: "'sc list \<Rightarrow> nat \<Rightarrow> py_error + 'sc list" where
  "reshape xs n = (if length xs = n then Inr xs else Inl ValueError)"

text \<open>\<open>ndarray.item()\<close>: the element of an array of size one, \<open>ValueError\<close> otherwise.\<close>

definition item :: "'sc list \<Rightarrow> py_error + 'sc" where
  "item xs = (case xs of [x] \<Rightarrow> Inr x | _ \<Rightarrow> Inl ValueError)"

definition MetricCOMETQE_scores ::
  "'sc scorer \<Rightarrow> Config \<Rightarrow> string list \<Rightarrow> string \<Rightarrow> py_error + 'sc list" where
  "MetricCOMETQE_scores predict cfg hyps source_text =
     (let data = map (\<lambda>hyp. \<lparr>src = source_text, mt = hyp\<rparr>) hyps
      in case predict data (batch_size cfg) 1 of
           Inl e \<Rightarrow> Inl e
         | Inr model_output \<Rightarrow> reshape model_output (length hyps))"

definition MetricCOMETQE_score ::
  "'sc scorer \<Rightarrow> Config \<Rightarrow> string \<Rightarrow> string \<Rightarrow> py_error + 'sc" where
  "MetricCOMETQE_score predict cfg hypothesis source_text =
     (case MetricCOMETQE_scores predict cfg [hypothesis] source_text of
        Inl e \<Rightarrow> Inl e
      | Inr ys \<Rightarrow> item ys)"

section \<open>The command line (mbrs/cli/decode.py)\<close>

text \<open>
  The \<open>Namespace\<close> that \<open>parse_args\<close> returns, without \<open>output\<close>: the stream it names is
  the \<open>printed\<close> component of a run below.
\<close>

record args =
  hypotheses :: string
  source :: "string option"
  references :: "string option"
  num_candidates :: int
  num_references :: "int option"
  decoder :: string
  metric :: string
  nbest :: int
  quiet :: bool
  report :: string
  width :: int
  arg_batch_size :: int
  fp16 :: bool

text \<open>
  Modelled from the spec: the class of a decoder's result is not among the modelled
  files; the spec describes it as the selected hypotheses' texts with their indices and
  scores. The command line reads \<open>sentence\<close> only.
\<close>

record 'sc Output =
  idx :: "nat list"
  sentence :: "string list"
  score :: "'sc list"

text \<open>
  A decoder object, by the class \<open>isinstance\<close> tests, with its \<open>decode\<close> method:
  \<open>decode(hyps, src, nbest)\<close> or \<open>decode(hyps, refs, src, nbest)\<close>.
\<close>

type_synonym 'sc decode_referenceless =
  "string list \<Rightarrow> string \<Rightarrow> int \<Rightarrow> py_error + 'sc Output"

type_synonym 'sc decode_reference_based =
  "string list \<Rightarrow> string list \<Rightarrow> string option \<Rightarrow> int \<Rightarrow> py_error + 'sc Output"

datatype 'sc decoder_obj =
    DecoderReferenceless "'sc decode_referenceless"
  | DecoderReferenceBased "'sc decode_reference_based"

text \<open>
  What \<open>main\<close> takes from its surroundings: the files (\<open>files path\<close> is what
  \<open>readlines\<close> returns, \<open>None\<close> when \<open>open\<close> fails), the construction of the decoder
  from the registries (\<open>get_decoder(args.decoder)\<close> applied to its default configuration
  and to \<open>get_metric(args.metric)\<close> built with the given \<open>Config\<close> keywords), and the
  timer's table (\<open>tabulate\<close> of \<open>timer.aggregate().result(num_sents)\<close>).
\<close>

record 'sc env =
  files :: "string \<Rightarrow> string list option"
  construct :: "string \<Rightarrow> string \<Rightarrow> (int \<times> bool) option \<Rightarrow> py_error + 'sc decoder_obj"
  timer_table :: "int \<Rightarrow> string \<Rightarrow> int \<Rightarrow> py_error + string"

text \<open>
  What a run does: the calls of \<open>decode\<close> with their arguments, the strings printed to
  \<open>args.output\<close>, and the table printed at the end.
\<close>

datatype decode_call =
    Call_referenceless "string list" string int
  | Call_reference_based "string list" "string list" "string option" int

record run =
  calls :: "decode_call list"
  printed :: "string list"
  table :: "string option"

definition run_empty :: run where
  "run_empty = \<lparr>calls = [], printed = [], table = None\<rparr>"

definition readlines :: "(string \<Rightarrow> string list option) \<Rightarrow> string \<Rightarrow> py_error + string list" where
  "readlines fs path = (case fs path of None \<Rightarrow> Inl OSError | Some ls \<Rightarrow> Inr ls)"

text \<open>Lines 67 to 71: the keywords given to the metric's \<open>Config\<close>.\<close>

definition metric_cfg :: "args \<Rightarrow> (int \<times> bool) option" where
  "metric_cfg a =
     (if metric a = ''comet'' \<or> metric a = ''cometqe''
      then Some (arg_batch_size a, fp16 a) else None)"

text \<open>Lines 52 to 82: everything before the loop.\<close>

record 'sc session =
  sources :: "string list option"
  hyp_lines :: "string list"
  ref_lines :: "string list"
  the_decoder :: "'sc decoder_obj"
  num_cands :: int
  num_refs :: int
  num_sents :: int

definition prepare :: "'sc env \<Rightarrow> args \<Rightarrow> py_error + 'sc session" where
  "prepare env a =
     (case (case source a of None \<Rightarrow> Inr None
            | Some p \<Rightarrow> map_sum id Some (readlines (files env) p)) of
        Inl e \<Rightarrow> Inl e
      | Inr srcs \<Rightarrow>
     (case readlines (files env) (hypotheses a) of
        Inl e \<Rightarrow> Inl e
      | Inr hyps \<Rightarrow>
     (case (case references a of None \<Rightarrow> Inr hyps
            | Some p \<Rightarrow> readlines (files env) p) of
        Inl e \<Rightarrow> Inl e
      | Inr refs \<Rightarrow>
     (case construct env (decoder a) (metric a) (metric_cfg a) of
        Inl e \<Rightarrow> Inl e
      | Inr dec \<Rightarrow>
     (if num_candidates a = 0 then Inl ZeroDivisionError
      else if (int (length hyps) div num_candidates a) * num_candidates a \<noteq> int (length hyps)
      then Inl AssertionError
      else Inr \<lparr>sources = srcs, hyp_lines = hyps, ref_lines = refs, the_decoder = dec,
                num_cands = num_candidates a,
                num_refs = py_or (num_references a) (num_candidates a),
                num_sents = int (length hyps) div num_candidates a\<rparr>)))))"

text \<open>The candidate pool and the reference list of sentence \<open>i\<close> (lines 87, 95, 96).\<close>

definition hyps_of :: "'sc session \<Rightarrow> nat \<Rightarrow> string list" where
  "hyps_of s i =
     map strip (py_slice (hyp_lines s) (int i * num_cands s) ((int i + 1) * num_cands s))"

definition refs_of :: "'sc session \<Rightarrow> nat \<Rightarrow> string list" where
  "refs_of s i =
     map strip (py_slice (ref_lines s) (int i * num_refs s) ((int i + 1) * num_refs s))"

text \<open>
  One pass of the loop body. \<open>sources[i]\<close> raises \<open>TypeError\<close> on \<open>None\<close> and
  \<open>IndexError\<close> past the end of the list.
\<close>

definition body :: "'sc session \<Rightarrow> int \<Rightarrow> run \<Rightarrow> nat \<Rightarrow> run \<times> py_error option" where
  "body s n r i =
     (case the_decoder s of
        DecoderReferenceless decode \<Rightarrow>
          (case sources s of
             None \<Rightarrow> (r, Some TypeError)
           | Some ss \<Rightarrow>
               if length ss \<le> i then (r, Some IndexError)
               else
                 let src_text = strip (ss ! i);
                     hyps = hyps_of s i;
                     r1 = r\<lparr>calls := calls r @ [Call_referenceless hyps src_text n]\<rparr>
                 in (case decode hyps src_text n of
                       Inl e \<Rightarrow> (r1, Some e)
                     | Inr out \<Rightarrow> (r1\<lparr>printed := printed r1 @ sentence out\<rparr>, None)))
      | DecoderReferenceBased decode \<Rightarrow>
          (case (case sources s of
                   None \<Rightarrow> Inr None
                 | Some ss \<Rightarrow> if length ss \<le> i then Inl IndexError else Inr (Some (strip (ss ! i)))) of
             Inl e \<Rightarrow> (r, Some e)
           | Inr src_text \<Rightarrow>
               let hyps = hyps_of s i;
                   refs = refs_of s i;
                   r1 = r\<lparr>calls := calls r @ [Call_reference_based hyps refs src_text n]\<rparr>
               in (case decode hyps refs src_text n of
                     Inl e \<Rightarrow> (r1, Some e)
                   | Inr out \<Rightarrow> (r1\<lparr>printed := printed r1 @ sentence out\<rparr>, None))))"

text \<open>\<open>for i in ...\<close>: the body for each index in turn, stopping at the first fault.\<close>

fun for_loop :: "(run \<Rightarrow> nat \<Rightarrow> run \<times> py_error option) \<Rightarrow> nat list \<Rightarrow> run \<Rightarrow> run \<times> py_error option" where
  "for_loop f [] r = (r, None)"
| "for_loop f (i # is) r =
     (case f r i of
        (r', None) \<Rightarrow> for_loop f is r'
      | (r', Some e) \<Rightarrow> (r', Some e))"

definition main :: "'sc env \<Rightarrow> args \<Rightarrow> run \<times> py_error option" where
  "main env a =
     (case prepare env a of
        Inl e \<Rightarrow> (run_empty, Some e)
      | Inr s \<Rightarrow>
          (case for_loop (body s (nbest a)) [0..<nat (num_sents s)] run_empty of
             (r, Some e) \<Rightarrow> (r, Some e)
           | (r, None) \<Rightarrow>
               if quiet a then (r, None)
               else (case timer_table env (num_sents s) (report a) (width a) of
                       Inl e \<Rightarrow> (r, Some e)
                     | Inr t \<Rightarrow> (r\<lparr>table := Some t\<rparr>, None))))"

text \<open>
  \<open>cli_main\<close>: an exception that leaves \<open>main\<close> ends the process with status 1, a normal
  return with status 0.
\<close>

definition exit_status :: "run \<times> py_error option \<Rightarrow> int" where
  "exit_status res = (case snd res of None \<Rightarrow> 0 | Some e \<Rightarrow> 1)"

section \<open>Reading a run\<close>

text \<open>
  The arguments of a recorded call, and what pass \<open>i\<close> of the loop hands to \<open>decode\<close> and
  gets back when it reaches the call: the source text, the call, its result and the
  lines printed from it.
\<close>

definition call_hyps :: "decode_call \<Rightarrow> string list" where
  "call_hyps c = (case c of Call_referenceless h _ _ \<Rightarrow> h | Call_reference_based h _ _ _ \<Rightarrow> h)"

definition source_at :: "'sc session \<Rightarrow> nat \<Rightarrow> string option" where
  "source_at s i = (case sources s of None \<Rightarrow> None | Some ss \<Rightarrow> Some (strip (ss ! i)))"

definition call_at :: "'sc session \<Rightarrow> int \<Rightarrow> nat \<Rightarrow> decode_call" where
  "call_at s n i =
     (case the_decoder s of
        DecoderReferenceless decode \<Rightarrow>
          Call_referenceless (hyps_of s i) (case source_at s i of None \<Rightarrow> [] | Some t \<Rightarrow> t) n
      | DecoderReferenceBased decode \<Rightarrow>
          Call_reference_based (hyps_of s i) (refs_of s i) (source_at s i) n)"

definition decode_at :: "'sc session \<Rightarrow> int \<Rightarrow> nat \<Rightarrow> py_error + 'sc Output" where
  "decode_at s n i =
     (case the_decoder s of
        DecoderReferenceless decode \<Rightarrow>
          decode (hyps_of s i) (case source_at s i of None \<Rightarrow> [] | Some t \<Rightarrow> t) n
      | DecoderReferenceBased decode \<Rightarrow>
          decode (hyps_of s i) (refs_of s i) (source_at s i) n)"

definition lines_at :: "'sc session \<Rightarrow> int \<Rightarrow> nat \<Rightarrow> string list" where
  "lines_at s n i = (case decode_at s n i of Inl e \<Rightarrow> [] | Inr out \<Rightarrow> sentence out)"

text \<open>
  The positions, in a file of \<open>len\<close> lines, of the lines that the slice
  \<open>lines[i * n : (i + 1) * n]\<close> holds for positive \<open>n\<close>: the slice is clipped at the end of
  the file.
\<close>

definition block_range :: "nat \<Rightarrow> nat \<Rightarrow> nat \<Rightarrow> nat list" where
  "block_range len n i = [min len (i * n) ..< min len (i * n + n)]"

section \<open>The decoders as the specification describes them\<close>

text \<open>
  Modelled from the spec: the decoder classes (\<open>mbrs.decoders\<close>) are not among the
  modelled files. The spec gives their result: the ranked result has
  \<open>min(n-best requested, H)\<close> entries, sorted by score descending, with ties broken by
  the original hypothesis index ascending; each entry is a hypothesis text with its
  index and score; \<open>n < 1\<close> and an empty hypothesis pool are input faults, and \<open>n > H\<close>
  yields all \<open>H\<close>. Scores are taken from a linear order (a NaN is outside this model).
\<close>

definition ranks_before :: "('sc::linorder) \<times> nat \<Rightarrow> 'sc \<times> nat \<Rightarrow> bool" where
  "ranks_before x y = (fst y < fst x \<or> (fst x = fst y \<and> snd x < snd y))"

definition ranked_result_ok :: "string list \<Rightarrow> int \<Rightarrow> ('sc::linorder) Output \<Rightarrow> bool" where
  "ranked_result_ok hyps n out =
     (length (idx out) = min (nat n) (length hyps) \<and>
      length (score out) = length (idx out) \<and>
      distinct (idx out) \<and>
      list_all (\<lambda>j. j < length hyps) (idx out) \<and>
      sentence out = map ((!) hyps) (idx out) \<and>
      sorted_wrt ranks_before (zip (score out) (idx out)))"

definition decoder_meets_spec :: "('sc::linorder) decoder_obj \<Rightarrow> bool" where
  "decoder_meets_spec dec =
     (case dec of
        DecoderReferenceless decode \<Rightarrow>
          (\<forall>hyps src_text n out. decode hyps src_text n = Inr out \<longrightarrow>
             1 \<le> n \<and> hyps \<noteq> [] \<and> ranked_result_ok hyps n out)
      | DecoderReferenceBased decode \<Rightarrow>
          (\<forall>hyps refs src_text n out. decode hyps refs src_text n = Inr out \<longrightarrow>
             1 \<le> n \<and> hyps \<noteq> [] \<and> refs \<noteq> [] \<and> ranked_result_ok hyps n out))"

text \<open>
  Modelled from the spec: the reference-free decoder over a batched metric. It scores
  all hypotheses against the source in one batched call, passes a fault of the metric on,
  ranks the scores and returns the first \<open>min(n, H)\<close>.
\<close>

fun insert_ranked :: "('sc::linorder) \<times> nat \<Rightarrow> ('sc \<times> nat) list \<Rightarrow> ('sc \<times> nat) list" where
  "insert_ranked x [] = [x]"
| "insert_ranked x (y # ys) =
     (if ranks_before x y then x # y # ys else y # insert_ranked x ys)"

definition ranking :: "('sc::linorder) list \<Rightarrow> ('sc \<times> nat) list" where
  "ranking v = foldr insert_ranked (zip v [0..<length v]) []"

definition decode_referenceless_spec ::
  "(string list \<Rightarrow> string \<Rightarrow> py_error + ('sc::linorder) list) \<Rightarrow> 'sc decode_referenceless" where
  "decode_referenceless_spec scores hyps src_text n =
     (if hyps = [] \<or> n < 1 then Inl ValueError
      else case scores hyps src_text of
             Inl e \<Rightarrow> Inl e
           | Inr v \<Rightarrow>
               if length v \<noteq> length hyps then Inl ValueError
               else
                 let top = take (nat n) (ranking v)
                 in Inr \<lparr>idx = map snd top, sentence = map (\<lambda>x. hyps ! snd x) top,
                         score = map fst top\<rparr>)"

section \<open>Example inputs\<close>

text \<open>A scorer that scores a sample by the length of its hypothesis.\<close>

definition ex_predict :: "nat scorer" where
  "ex_predict data b g = Inr (map (\<lambda>x. length (mt x)) data)"

text \<open>A reference-based decoder that returns the first candidate.\<close>

definition ex_decode_first :: "nat decode_reference_based" where
  "ex_decode_first hyps refs s n =
     Inr \<lparr>idx = [0], sentence = take 1 hyps, score = [length refs]\<rparr>"

definition ex_files :: "string \<Rightarrow> string list option" where
  "ex_files p =
     (if p = ''hyp7'' then Some [''a\<newline>'', ''b\<newline>'', ''c\<newline>'', ''d\<newline>'', ''e\<newline>'', ''f\<newline>'', ''g\<newline>'']
      else if p = ''hyp4'' then Some [''a b\<newline>'', '' a c \<newline>'', ''x\<newline>'', ''y z\<newline>'']
      else if p = ''hyp2'' then Some [''a\<newline>'', ''bb\<newline>'']
      else if p = ''ref4'' then Some [''a b\<newline>'', ''a b\<newline>'', ''x\<newline>'', ''y\<newline>'']
      else if p = ''src2'' then Some [''s one\<newline>'', ''s two\<newline>'']
      else if p = ''src1'' then Some [''s\<newline>'']
      else if p = ''empty'' then Some []
      else None)"

definition ex_env :: "nat env" where
  "ex_env = \<lparr>files = ex_files,
            construct = (\<lambda>d m kw. Inr (DecoderReferenceBased ex_decode_first)),
            timer_table = (\<lambda>n fmt w. Inr ''table'')\<rparr>"

definition ex_args :: args where
  "ex_args = \<lparr>hypotheses = ''hyp4'', source = None, references = None, num_candidates = 2,
              num_references = None, decoder = ''mbr'', metric = ''bleu'', nbest = 1, quiet = False,
              report = ''rounded_outline'', width = 1, arg_batch_size = 64, fp16 = False\<rparr>"

text \<open>Seven hypothesis lines with three candidates per sentence.\<close>

definition ex_args_7_3 :: args where
  "ex_args_7_3 = ex_args\<lparr>hypotheses := ''hyp7'', num_candidates := 3\<rparr>"

text \<open>The COMET-QE metric chosen by its registered name, with both COMET options given.\<close>

definition ex_args_comet_qe :: args where
  "ex_args_comet_qe =
     ex_args\<lparr>source := Some ''src2'', metric := ''comet_qe'', arg_batch_size := 8, fp16 := True\<rparr>"

text \<open>A scorer that works with batches of 64 in full precision only.\<close>

definition ex_predict_64 :: "nat scorer" where
  "ex_predict_64 data b g =
     (if b = 64 then Inr (map (\<lambda>x. length (mt x)) data) else Inl (External ''batch size''))"

text \<open>
  The reference-free decoder of the specification over the COMET-QE metric with the
  example scorer.
\<close>

definition ex_env_qe :: "nat env" where
  "ex_env_qe = \<lparr>files = ex_files,
               construct = (\<lambda>d m kw. Inr (DecoderReferenceless
                 (decode_referenceless_spec
                    (MetricCOMETQE_scores ex_predict (MetricCOMETQE_Config kw))))),
               timer_table = (\<lambda>n fmt w. Inr ''table'')\<rparr>"

text \<open>
  The same over the scorer that needs batches of 64, and surroundings in which no decoder
  can be constructed.
\<close>

definition ex_env_qe_64 :: "nat env" where
  "ex_env_qe_64 = \<lparr>files = ex_files,
                  construct = (\<lambda>d m kw. Inr (DecoderReferenceless
                    (decode_referenceless_spec
                       (MetricCOMETQE_scores ex_predict_64 (MetricCOMETQE_Config kw))))),
                  timer_table = (\<lambda>n fmt w. Inr ''table'')\<rparr>"

definition ex_env_no_model :: "nat env" where
  "ex_env_no_model = \<lparr>files = ex_files,
                     construct = (\<lambda>d m kw. Inl (External ''no model'')),
                     timer_table = (\<lambda>n fmt w. Inr ''table'')\<rparr>"

text \<open>Two sentences of two candidates with a source file, the best one asked for.\<close>

definition ex_args_qe :: args where
  "ex_args_qe = ex_args\<lparr>source := Some ''src2'', metric := ''comet_qe''\<rparr>"

text \<open>One sentence of two candidates, three best asked for.\<close>

definition ex_args_qe_3best :: args where
  "ex_args_qe_3best =
     ex_args\<lparr>hypotheses := ''hyp2'', source := Some ''src1'', metric := ''comet_qe'', nbest := 3\<rparr>"

text \<open>An empty hypotheses file and no source file.\<close>

definition ex_args_qe_empty :: args where
  "ex_args_qe_empty = ex_args\<lparr>hypotheses := ''empty'', metric := ''comet_qe'', quiet := True\<rparr>"

text \<open>Two sentences of two candidates and no source file.\<close>

definition ex_args_qe_no_source :: args where
  "ex_args_qe_no_source = ex_args\<lparr>metric := ''comet_qe''\<rparr>"

text \<open>A references file, and no \<open>--num-references\<close>.\<close>

definition ex_args_refs :: args where
  "ex_args_refs = ex_args\<lparr>references := Some ''ref4''\<rparr>"

text \<open>No references file, one reference per sentence asked for.\<close>

definition ex_args_nr1 :: args where
  "ex_args_nr1 = ex_args\<lparr>num_references := Some 1\<rparr>"

text \<open>No references file, one sentence of two candidates, three references asked for.\<close>

definition ex_args_nr3 :: args where
  "ex_args_nr3 = ex_args\<lparr>hypotheses := ''hyp2'', num_references := Some 3\<rparr>"

section \<open>The metric's two interfaces\<close>

text \<open>
  C3. Whenever \<open>scores\<close> returns, its result has one entry per hypothesis, whatever the
  scorer did; and when the scorer answers every batch with the scores of its samples in
  order (each a function \<open>f\<close> of the sample alone), \<open>scores\<close> returns, and entry \<open>i\<close> of
  its result is the score of the sample that pairs \<open>hypotheses[i]\<close> with the source.
\<close>

theorem MetricCOMETQE_scores_aligned:
  "(\<forall>ys. MetricCOMETQE_scores predict cfg hyps s = Inr ys \<longrightarrow> length ys = length hyps) \<and>
   ((\<forall>data. predict data (batch_size cfg) 1 = Inr (map f data)) \<longrightarrow>
      (\<exists>ys. MetricCOMETQE_scores predict cfg hyps s = Inr ys \<and> length ys = length hyps \<and>
            (\<forall>i<length hyps. ys ! i = f \<lparr>src = s, mt = hyps ! i\<rparr>)))"
  by (auto simp: MetricCOMETQE_scores_def reshape_def split: sum.splits if_splits)

theorem MetricCOMETQE_scores_aligned_witness:
  "(\<forall>data. ex_predict data (batch_size Config_default) 1 = Inr (map (\<lambda>x. length (mt x)) data)) \<and>
   MetricCOMETQE_scores ex_predict Config_default [''ab'', ''c'', ''def''] ''s'' = Inr [2, 1, 3]"
  using MetricCOMETQE_scores_aligned
          [of ex_predict Config_default "[''ab'', ''c'', ''def'']" "''s''" "\<lambda>x. length (mt x)"]
  by (simp add: ex_predict_def MetricCOMETQE_scores_def reshape_def)

text \<open>
  C4. The scalar \<open>score(h, s)\<close> is the batched call on the one-element list \<open>[h]\<close>: a
  fault of the batched call is the fault of \<open>score\<close>, and a result of the batched call
  has exactly one element, which is what \<open>score\<close> returns (\<open>item()\<close> cannot fail
  there; it turns a NumPy float into the Python float of the same value).
\<close>

theorem MetricCOMETQE_score_single:
  "(\<forall>e. MetricCOMETQE_scores predict cfg [h] s = Inl e \<longrightarrow>
        MetricCOMETQE_score predict cfg h s = Inl e) \<and>
   (\<forall>ys. MetricCOMETQE_scores predict cfg [h] s = Inr ys \<longrightarrow>
        (\<exists>y. ys = [y] \<and> MetricCOMETQE_score predict cfg h s = Inr y))"
proof (intro conjI allI impI)
  fix e assume "MetricCOMETQE_scores predict cfg [h] s = Inl e"
  then show "MetricCOMETQE_score predict cfg h s = Inl e"
    by (simp add: MetricCOMETQE_score_def)
next
  fix ys assume r: "MetricCOMETQE_scores predict cfg [h] s = Inr ys"
  then have "length ys = 1"
    by (auto simp: MetricCOMETQE_scores_def reshape_def split: sum.splits if_splits)
  then obtain y where "ys = [y]"
    by (cases ys) auto
  with r show "\<exists>y. ys = [y] \<and> MetricCOMETQE_score predict cfg h s = Inr y"
    by (simp add: MetricCOMETQE_score_def item_def)
qed

theorem MetricCOMETQE_score_single_witness:
  "MetricCOMETQE_scores ex_predict Config_default [''abc''] ''s'' = Inr [3] \<and>
   MetricCOMETQE_score ex_predict Config_default ''abc'' ''s'' = Inr 3"
proof -
  have b: "MetricCOMETQE_scores ex_predict Config_default [''abc''] ''s'' = Inr [3]"
    by (simp add: ex_predict_def MetricCOMETQE_scores_def reshape_def)
  from MetricCOMETQE_score_single [of ex_predict Config_default "''abc''" "''s''"] b
  show ?thesis by auto
qed

section \<open>Before the loop\<close>

lemma not_dvd_assert: "\<not> c dvd n \<Longrightarrow> (n div c) * c \<noteq> (n::int)"
  by (metis dvd_triv_right)

lemma main_prepare_Inl: "prepare env a = Inl e \<Longrightarrow> main env a = (run_empty, Some e)"
  by (simp add: main_def)

lemma prepare_not_dvd:
  assumes "files env (hypotheses a) = Some hs" and "\<not> num_candidates a dvd int (length hs)"
  shows "\<exists>e. prepare env a = Inl e"
  using assms not_dvd_assert [of "num_candidates a" "int (length hs)"]
  by (auto simp: prepare_def readlines_def split: sum.splits option.splits)

text \<open>
  C1. When the number of lines of the hypotheses file is not a multiple of
  \<open>num_candidates\<close>, the run ends with a fault, so with a non-zero exit status, and
  \<open>decode\<close> is never called and nothing is printed. With seven lines and three candidates
  the fault is the failed assertion.
\<close>

theorem block_size_mismatch_fails:
  assumes "files env (hypotheses a) = Some hs"
    and "\<not> num_candidates a dvd int (length hs)"
  shows "exit_status (main env a) \<noteq> 0 \<and> calls (fst (main env a)) = [] \<and>
         printed (fst (main env a)) = []"
proof -
  from prepare_not_dvd [OF assms] obtain e where "prepare env a = Inl e" ..
  then have "main env a = (run_empty, Some e)" by (rule main_prepare_Inl)
  then show ?thesis by (simp add: exit_status_def run_empty_def)
qed

theorem block_size_mismatch_fails_witness:
  "files ex_env (hypotheses ex_args_7_3) =
     Some [''a\<newline>'', ''b\<newline>'', ''c\<newline>'', ''d\<newline>'', ''e\<newline>'', ''f\<newline>'', ''g\<newline>''] \<and>
   num_candidates ex_args_7_3 = 3 \<and>
   main ex_env ex_args_7_3 = (run_empty, Some AssertionError) \<and>
   exit_status (main ex_env ex_args_7_3) \<noteq> 0 \<and>
   calls (fst (main ex_env ex_args_7_3)) = []"
proof -
  have f: "files ex_env (hypotheses ex_args_7_3) =
      Some [''a\<newline>'', ''b\<newline>'', ''c\<newline>'', ''d\<newline>'', ''e\<newline>'', ''f\<newline>'', ''g\<newline>'']"
    by (simp add: ex_env_def ex_args_7_3_def ex_args_def ex_files_def)
  have n: "num_candidates ex_args_7_3 = 3"
    by (simp add: ex_args_7_3_def)
  have d: "\<not> num_candidates ex_args_7_3 dvd
      int (length [''a\<newline>'', ''b\<newline>'', ''c\<newline>'', ''d\<newline>'', ''e\<newline>'', ''f\<newline>'', ''g\<newline>''])"
    unfolding n by simp
  have m: "main ex_env ex_args_7_3 = (run_empty, Some AssertionError)"
    by (simp add: main_def prepare_def readlines_def ex_env_def ex_args_7_3_def ex_args_def
                  ex_files_def)
  from block_size_mismatch_fails [OF f d] f n m show ?thesis by simp
qed

section \<open>The loop\<close>

text \<open>
  One pass either faults before the call and changes nothing, or records the call and
  faults in \<open>decode\<close>, or records the call and prints the sentences of its result.
\<close>

lemma body_cases:
  assumes "body s n r i = (r', e)"
  shows "(r' = r \<and> e \<noteq> None) \<or>
         (r' = r\<lparr>calls := calls r @ [call_at s n i]\<rparr> \<and> e \<noteq> None) \<or>
         (\<exists>out. decode_at s n i = Inr out \<and> e = None \<and>
            r' = r\<lparr>calls := calls r @ [call_at s n i], printed := printed r @ sentence out\<rparr>)"
  using assms
  by (auto simp: body_def call_at_def decode_at_def source_at_def Let_def
           split: decoder_obj.splits option.splits if_splits sum.splits)

lemma for_loop_success:
  assumes "for_loop (body s n) js r = (r', None)"
  shows "calls r' = calls r @ map (call_at s n) js \<and>
         printed r' = printed r @ concat (map (lines_at s n) js) \<and>
         table r' = table r \<and>
         (\<forall>j\<in>set js. \<exists>out. decode_at s n j = Inr out)"
  using assms
proof (induction js arbitrary: r)
  case Nil
  then show ?case by simp
next
  case (Cons j js)
  obtain r1 e1 where b: "body s n r j = (r1, e1)" by (cases "body s n r j")
  with Cons.prems have e1: "e1 = None" and rest: "for_loop (body s n) js r1 = (r', None)"
    by (auto split: option.splits)
  from body_cases [OF b] e1 obtain out where
    o: "decode_at s n j = Inr out"
       "r1 = r\<lparr>calls := calls r @ [call_at s n j], printed := printed r @ sentence out\<rparr>"
    by auto
  from Cons.IH [OF rest] o show ?case
    by (simp add: lines_at_def)
qed

lemma for_loop_calls:
  assumes "for_loop (body s n) js r = (r', e)"
  shows "\<exists>k\<le>length js. calls r' = calls r @ map (call_at s n) (take k js)"
  using assms
proof (induction js arbitrary: r)
  case Nil
  then show ?case by simp
next
  case (Cons j js)
  obtain r1 e1 where b: "body s n r j = (r1, e1)" by (cases "body s n r j")
  show ?case
  proof (cases e1)
    case None
    with b Cons.prems have rest: "for_loop (body s n) js r1 = (r', e)" by simp
    from body_cases [OF b] None have c1: "calls r1 = calls r @ [call_at s n j]" by auto
    from Cons.IH [OF rest] obtain k where "k \<le> length js"
      "calls r' = calls r1 @ map (call_at s n) (take k js)" by blast
    with c1 have "Suc k \<le> length (j # js) \<and>
        calls r' = calls r @ map (call_at s n) (take (Suc k) (j # js))" by simp
    then show ?thesis by blast
  next
    case (Some x)
    with b Cons.prems have r': "r' = r1" by simp
    from body_cases [OF b] Some have
      "calls r1 = calls r \<or> calls r1 = calls r @ [call_at s n j]" by auto
    then show ?thesis
    proof
      assume "calls r1 = calls r"
      with r' have "0 \<le> length (j # js) \<and>
          calls r' = calls r @ map (call_at s n) (take 0 (j # js))"
        by simp
      then show ?thesis by blast
    next
      assume "calls r1 = calls r @ [call_at s n j]"
      with r' have "Suc 0 \<le> length (j # js) \<and>
          calls r' = calls r @ map (call_at s n) (take (Suc 0) (j # js))" by simp
      then show ?thesis by blast
    qed
  qed
qed

text \<open>The calls of a run are those of the first \<open>k\<close> sentences, of all of them on success.\<close>

lemma main_calls:
  assumes "prepare env a = Inr s"
  shows "\<exists>k\<le>nat (num_sents s). calls (fst (main env a)) = map (call_at s (nbest a)) [0..<k]"
proof -
  obtain r e where l: "for_loop (body s (nbest a)) [0..<nat (num_sents s)] run_empty = (r, e)"
    by (cases "for_loop (body s (nbest a)) [0..<nat (num_sents s)] run_empty")
  from for_loop_calls [OF l] obtain k where k: "k \<le> nat (num_sents s)"
    "calls r = map (call_at s (nbest a)) (take k [0..<nat (num_sents s)])"
    by (auto simp: run_empty_def)
  from k(1) have "take k [0..<nat (num_sents s)] = [0..<k]"
    by (simp add: take_upt)
  with k have "calls r = map (call_at s (nbest a)) [0..<k]" by simp
  moreover from assms l have "calls (fst (main env a)) = calls r"
    by (auto simp: main_def split: option.splits sum.splits)
  ultimately show ?thesis using k(1) by auto
qed

lemma main_success:
  assumes "prepare env a = Inr s" and "snd (main env a) = None"
  shows "calls (fst (main env a)) = map (call_at s (nbest a)) [0..<nat (num_sents s)] \<and>
         printed (fst (main env a)) = concat (map (lines_at s (nbest a)) [0..<nat (num_sents s)]) \<and>
         (\<forall>j<nat (num_sents s). \<exists>out. decode_at s (nbest a) j = Inr out)"
proof -
  obtain r e where l: "for_loop (body s (nbest a)) [0..<nat (num_sents s)] run_empty = (r, e)"
    by (cases "for_loop (body s (nbest a)) [0..<nat (num_sents s)] run_empty")
  with assms have e: "e = None"
    by (auto simp: main_def split: option.splits sum.splits if_splits)
  from assms l e have m: "calls (fst (main env a)) = calls r" "printed (fst (main env a)) = printed r"
    by (auto simp: main_def split: option.splits sum.splits if_splits)
  from for_loop_success [OF l [unfolded e]] m show ?thesis
    by (simp add: run_empty_def)
qed

lemma prepare_Inr:
  assumes "prepare env a = Inr s"
  shows "files env (hypotheses a) = Some (hyp_lines s)"
    and "num_cands s = num_candidates a"
    and "num_candidates a \<noteq> 0"
    and "num_sents s = int (length (hyp_lines s)) div num_candidates a"
    and "num_sents s * num_candidates a = int (length (hyp_lines s))"
    and "num_refs s = py_or (num_references a) (num_candidates a)"
    and "construct env (decoder a) (metric a) (metric_cfg a) = Inr (the_decoder s)"
    and "references a = None \<Longrightarrow> ref_lines s = hyp_lines s"
    and "references a = Some p \<Longrightarrow> files env p = Some (ref_lines s)"
    and "source a = None \<Longrightarrow> sources s = None"
  using assms
  by (auto simp: prepare_def readlines_def split: sum.splits option.splits if_splits)

section \<open>Slices\<close>

lemma py_slice_nonneg:
  assumes "0 \<le> lo" and "lo \<le> hi"
  shows "py_slice xs lo hi = take (nat hi - nat lo) (drop (nat lo) xs)"
proof (cases "nat lo \<le> length xs")
  case True
  with assms show ?thesis
    by (auto simp: py_slice_def slice_bound_def Let_def min_def)
next
  case False
  with assms show ?thesis
    by (auto simp: py_slice_def slice_bound_def Let_def min_def)
qed

lemma py_slice_block:
  assumes "0 < n"
  shows "py_slice xs (int i * n) ((int i + 1) * n) = take (nat n) (drop (i * nat n) xs)"
proof -
  have a: "nat (int i * n) = i * nat n"
    using assms by (simp add: nat_mult_distrib)
  have "nat (int (Suc i) * n) = Suc i * nat n"
    using assms by (simp only: nat_mult_distrib of_nat_0_le_iff nat_int)
  then have b: "nat ((int i + 1) * n) = i * nat n + nat n"
    by (simp add: add.commute)
  have "0 \<le> int i * n" "int i * n \<le> (int i + 1) * n"
    using assms by (simp_all add: distrib_right)
  from py_slice_nonneg [OF this] show ?thesis
    unfolding a b by simp
qed

lemma concat_blocks:
  "k * n \<le> length xs \<Longrightarrow> concat (map (\<lambda>i. take n (drop (i * n) xs)) [0..<k]) = take (k * n) xs"
proof (induction k)
  case 0
  then show ?case by simp
next
  case (Suc k)
  then have "concat (map (\<lambda>i. take n (drop (i * n) xs)) [0..<k]) = take (k * n) xs" by simp
  moreover have "take (k * n + n) xs = take (k * n) xs @ take n (drop (k * n) xs)"
    by (rule take_add)
  ultimately show ?case by (simp add: add.commute)
qed

section \<open>Candidate pools\<close>

text \<open>
  A pass of the loop happens only with a positive \<open>num_candidates\<close>; its block lies inside
  the file and is the slice of the source.
\<close>

lemma session_block:
  assumes "prepare env a = Inr s" and "i < nat (num_sents s)"
  shows "0 < num_candidates a"
    and "(i + 1) * nat (num_candidates a) \<le> length (hyp_lines s)"
    and "hyps_of s i =
           map strip (take (nat (num_candidates a)) (drop (i * nat (num_candidates a)) (hyp_lines s)))"
proof -
  note p = prepare_Inr [OF assms(1)]
  from assms(2) have ns: "0 < num_sents s" "int (i + 1) \<le> num_sents s" by auto
  show c: "0 < num_candidates a"
  proof (rule ccontr)
    assume "\<not> 0 < num_candidates a"
    with p(3) have "num_candidates a < 0" by simp
    with ns(1) have "num_sents s * num_candidates a < 0" by (simp add: mult_pos_neg)
    with p(5) show False by simp
  qed
  from ns(2) c have "int (i + 1) * num_candidates a \<le> num_sents s * num_candidates a"
    by (simp add: mult_right_mono)
  with p(5) have "int (i + 1) * num_candidates a \<le> int (length (hyp_lines s))" by simp
  moreover from c have "int ((i + 1) * nat (num_candidates a)) = int (i + 1) * num_candidates a"
    by (simp only: of_nat_mult) simp
  ultimately have "int ((i + 1) * nat (num_candidates a)) \<le> int (length (hyp_lines s))"
    by (simp only:)
  then show "(i + 1) * nat (num_candidates a) \<le> length (hyp_lines s)" by linarith
  from c show "hyps_of s i =
           map strip (take (nat (num_candidates a)) (drop (i * nat (num_candidates a)) (hyp_lines s)))"
    by (simp add: hyps_of_def p(2) py_slice_block)
qed

lemma call_hyps_call_at: "call_hyps (call_at s n i) = hyps_of s i"
  by (simp add: call_hyps_def call_at_def split: decoder_obj.splits)

text \<open>
  C7. The pool of the \<open>i\<close>-th call of \<open>decode\<close> is the stripped lines
  \<open>i * num_candidates\<close> to \<open>(i + 1) * num_candidates - 1\<close> of the hypotheses file, all of
  which exist, so it has \<open>num_candidates\<close> entries. On a run that ends without a fault,
  with a positive \<open>num_candidates\<close>, there is one call per sentence and the pools in
  order, one after the other, are the stripped file: no line is shared and none skipped.
\<close>

theorem candidate_pools:
  assumes "files env (hypotheses a) = Some hs"
  shows "(\<forall>i<length (calls (fst (main env a))).
            call_hyps (calls (fst (main env a)) ! i) =
              map strip (take (nat (num_candidates a)) (drop (i * nat (num_candidates a)) hs)) \<and>
            length (call_hyps (calls (fst (main env a)) ! i)) = nat (num_candidates a) \<and>
            (i + 1) * nat (num_candidates a) \<le> length hs) \<and>
         (snd (main env a) = None \<and> 0 < num_candidates a \<longrightarrow>
            length (calls (fst (main env a))) * nat (num_candidates a) = length hs \<and>
            concat (map call_hyps (calls (fst (main env a)))) = map strip hs)"
proof (cases "prepare env a")
  case (Inl e)
  then have "main env a = (run_empty, Some e)" by (rule main_prepare_Inl)
  then show ?thesis by (simp add: run_empty_def)
next
  case (Inr s)
  note p = prepare_Inr [OF Inr]
  from p(1) assms have hs: "hyp_lines s = hs" by simp
  let ?c = "nat (num_candidates a)"
  let ?pool = "\<lambda>i. map strip (take ?c (drop (i * ?c) hs))"
  from main_calls [OF Inr] obtain k where k: "k \<le> nat (num_sents s)"
    "calls (fst (main env a)) = map (call_at s (nbest a)) [0..<k]" by blast
  have blk: "call_hyps (call_at s (nbest a) i) = ?pool i \<and> (i + 1) * ?c \<le> length hs"
    if "i < nat (num_sents s)" for i
    using session_block [OF Inr that] hs by (simp add: call_hyps_call_at)
  have first: "\<forall>i<length (calls (fst (main env a))).
            call_hyps (calls (fst (main env a)) ! i) = ?pool i \<and>
            length (call_hyps (calls (fst (main env a)) ! i)) = ?c \<and>
            (i + 1) * ?c \<le> length hs"
  proof (intro allI impI)
    fix i assume "i < length (calls (fst (main env a)))"
    with k have i: "i < k" "i < nat (num_sents s)" by simp_all
    from blk [OF i(2)] k(2) i(1)
    have a1: "call_hyps (calls (fst (main env a)) ! i) = ?pool i"
      and a2: "(i + 1) * ?c \<le> length hs"
      by simp_all
    from a2 have "length (?pool i) = ?c" by simp
    with a1 a2 show "call_hyps (calls (fst (main env a)) ! i) = ?pool i \<and>
            length (call_hyps (calls (fst (main env a)) ! i)) = ?c \<and>
            (i + 1) * ?c \<le> length hs" by simp
  qed
  have second: "length (calls (fst (main env a))) * ?c = length hs \<and>
            concat (map call_hyps (calls (fst (main env a)))) = map strip hs"
    if ok: "snd (main env a) = None" and pos: "0 < num_candidates a"
  proof -
    from main_success [OF Inr ok]
    have c: "calls (fst (main env a)) = map (call_at s (nbest a)) [0..<nat (num_sents s)]"
      by simp
    from p(5) hs pos have "0 \<le> num_sents s"
      by (metis of_nat_0_le_iff zero_le_mult_iff not_less order_less_imp_le)
    with p(5) hs pos have len: "nat (num_sents s) * ?c = length hs"
      by (metis nat_int nat_mult_distrib)
    have "map call_hyps (calls (fst (main env a))) = map ?pool [0..<nat (num_sents s)]"
      unfolding c using blk by (simp add: comp_def)
    also have "concat \<dots> =
        map strip (concat (map (\<lambda>i. take ?c (drop (i * ?c) hs)) [0..<nat (num_sents s)]))"
      by (simp add: map_concat comp_def)
    also have "\<dots> = map strip hs"
      using len by (simp add: concat_blocks)
    finally show ?thesis using c len by simp
  qed
  from first second show ?thesis by blast
qed

theorem candidate_pools_witness:
  "files ex_env (hypotheses ex_args) = Some [''a b\<newline>'', '' a c \<newline>'', ''x\<newline>'', ''y z\<newline>''] \<and>
   num_candidates ex_args = 2 \<and> snd (main ex_env ex_args) = None \<and>
   map call_hyps (calls (fst (main ex_env ex_args))) = [[''a b'', ''a c''], [''x'', ''y z'']] \<and>
   concat (map call_hyps (calls (fst (main ex_env ex_args)))) =
     map strip [''a b\<newline>'', '' a c \<newline>'', ''x\<newline>'', ''y z\<newline>'']"
proof -
  have f: "files ex_env (hypotheses ex_args) =
      Some [''a b\<newline>'', '' a c \<newline>'', ''x\<newline>'', ''y z\<newline>'']"
    by (simp add: ex_env_def ex_args_def ex_files_def)
  have n: "num_candidates ex_args = 2" by (simp add: ex_args_def)
  have r: "main ex_env ex_args =
    (\<lparr>calls = [Call_reference_based [''a b'', ''a c''] [''a b'', ''a c''] None 1,
               Call_reference_based [''x'', ''y z''] [''x'', ''y z''] None 1],
      printed = [''a b'', ''x''], table = Some ''table''\<rparr>, None)"
    by code_simp
  have ok: "snd (main ex_env ex_args) = None" by (simp add: r)
  have c: "map call_hyps (calls (fst (main ex_env ex_args))) = [[''a b'', ''a c''], [''x'', ''y z'']]"
    by (simp add: r call_hyps_def)
  from candidate_pools [OF f] ok n
  have "concat (map call_hyps (calls (fst (main ex_env ex_args)))) =
     map strip [''a b\<newline>'', '' a c \<newline>'', ''x\<newline>'', ''y z\<newline>'']" by simp
  with f n ok c show ?thesis by simp
qed

section \<open>Reference lists\<close>

lemma main_calls_reference_based:
  assumes "prepare env a = Inr s" and "the_decoder s = DecoderReferenceBased d"
    and "i < length (calls (fst (main env a)))"
  shows "i < nat (num_sents s)"
    and "calls (fst (main env a)) ! i =
           Call_reference_based (hyps_of s i) (refs_of s i) (source_at s i) (nbest a)"
proof -
  from main_calls [OF assms(1)] obtain k where k: "k \<le> nat (num_sents s)"
    "calls (fst (main env a)) = map (call_at s (nbest a)) [0..<k]" by blast
  with assms(3) have i: "i < k" by simp
  with k(1) show "i < nat (num_sents s)" by simp
  from i k(2) have "calls (fst (main env a)) ! i = call_at s (nbest a) i" by simp
  with assms(2) show "calls (fst (main env a)) ! i =
           Call_reference_based (hyps_of s i) (refs_of s i) (source_at s i) (nbest a)"
    by (simp add: call_at_def)
qed

lemma no_session_no_calls:
  assumes "prepare env a = Inl e"
  shows "calls (fst (main env a)) = []"
  using main_prepare_Inl [OF assms] by (simp add: run_empty_def)

text \<open>
  C2. With no references file and \<open>--num-references\<close> unset, every call of a
  reference-based decoder gets, as its references, the candidate pool of its own
  sentence: the stripped lines \<open>i * num_candidates\<close> to \<open>(i + 1) * num_candidates - 1\<close> of
  the hypotheses file, in both arguments.
\<close>

theorem hypotheses_reused_as_references:
  assumes "references a = None" and "num_references a = None"
    and "files env (hypotheses a) = Some hs"
    and "construct env (decoder a) (metric a) (metric_cfg a) = Inr (DecoderReferenceBased d)"
  shows "\<forall>i<length (calls (fst (main env a))).
           \<exists>sr. calls (fst (main env a)) ! i =
             Call_reference_based
               (map strip (take (nat (num_candidates a)) (drop (i * nat (num_candidates a)) hs)))
               (map strip (take (nat (num_candidates a)) (drop (i * nat (num_candidates a)) hs)))
               sr (nbest a)"
proof (cases "prepare env a")
  case (Inl e)
  then show ?thesis by (simp add: no_session_no_calls)
next
  case (Inr s)
  note p = prepare_Inr [OF Inr]
  from p(1) assms(3) have hs: "hyp_lines s = hs" by simp
  from p(7) assms(4) have d: "the_decoder s = DecoderReferenceBased d" by simp
  from p(6) assms(2) p(2) have nr: "num_refs s = num_cands s" by (simp add: py_or_def)
  from p(8) [OF assms(1)] nr have same: "refs_of s i = hyps_of s i" for i
    by (simp add: refs_of_def hyps_of_def)
  show ?thesis
  proof (intro allI impI)
    fix i assume i: "i < length (calls (fst (main env a)))"
    note c = main_calls_reference_based [OF Inr d i]
    from session_block(3) [OF Inr c(1)] hs c(2) same
    show "\<exists>sr. calls (fst (main env a)) ! i =
             Call_reference_based
               (map strip (take (nat (num_candidates a)) (drop (i * nat (num_candidates a)) hs)))
               (map strip (take (nat (num_candidates a)) (drop (i * nat (num_candidates a)) hs)))
               sr (nbest a)"
      by simp
  qed
qed

theorem hypotheses_reused_as_references_witness:
  "references ex_args = None \<and> num_references ex_args = None \<and>
   calls (fst (main ex_env ex_args)) =
     [Call_reference_based [''a b'', ''a c''] [''a b'', ''a c''] None 1,
      Call_reference_based [''x'', ''y z''] [''x'', ''y z''] None 1]"
proof -
  have a: "references ex_args = None" "num_references ex_args = None"
    by (simp_all add: ex_args_def)
  have f: "files ex_env (hypotheses ex_args) =
      Some [''a b\<newline>'', '' a c \<newline>'', ''x\<newline>'', ''y z\<newline>'']"
    by (simp add: ex_env_def ex_args_def ex_files_def)
  have d: "construct ex_env (decoder ex_args) (metric ex_args) (metric_cfg ex_args) =
      Inr (DecoderReferenceBased ex_decode_first)"
    by (simp add: ex_env_def)
  have r: "main ex_env ex_args =
    (\<lparr>calls = [Call_reference_based [''a b'', ''a c''] [''a b'', ''a c''] None 1,
               Call_reference_based [''x'', ''y z''] [''x'', ''y z''] None 1],
      printed = [''a b'', ''x''], table = Some ''table''\<rparr>, None)"
    by code_simp
  from hypotheses_reused_as_references [OF a f d] a r show ?thesis by simp
qed

lemma refs_of_block:
  assumes "0 < num_refs s"
  shows "refs_of s i = map strip (take (nat (num_refs s)) (drop (i * nat (num_refs s)) (ref_lines s)))"
  using assms by (simp add: refs_of_def py_slice_block)

text \<open>
  C8. With a references file and \<open>--num-references\<close> unset, the block size of the
  references is \<open>num_candidates\<close>: the references of the \<open>i\<close>-th call are the stripped
  lines of the references file from \<open>i * num_candidates\<close> on, \<open>num_candidates\<close> of them as
  far as the file has them.
\<close>

theorem default_reference_block_size:
  assumes "references a = Some p" and "files env p = Some rl" and "num_references a = None"
    and "construct env (decoder a) (metric a) (metric_cfg a) = Inr (DecoderReferenceBased d)"
  shows "(\<forall>s. prepare env a = Inr s \<longrightarrow> num_refs s = num_candidates a) \<and>
         (\<forall>i<length (calls (fst (main env a))).
           \<exists>h sr. calls (fst (main env a)) ! i =
             Call_reference_based h
               (map strip (take (nat (num_candidates a)) (drop (i * nat (num_candidates a)) rl)))
               sr (nbest a))"
proof (cases "prepare env a")
  case (Inl e)
  then show ?thesis by (simp add: no_session_no_calls)
next
  case (Inr s)
  note p = prepare_Inr [OF Inr]
  from p(9) [OF assms(1)] assms(2) have rl: "ref_lines s = rl" by simp
  from p(7) assms(4) have d: "the_decoder s = DecoderReferenceBased d" by simp
  from p(6) assms(3) have nr: "num_refs s = num_candidates a" by (simp add: py_or_def)
  have "\<exists>h sr. calls (fst (main env a)) ! i =
             Call_reference_based h
               (map strip (take (nat (num_candidates a)) (drop (i * nat (num_candidates a)) rl)))
               sr (nbest a)"
    if i: "i < length (calls (fst (main env a)))" for i
  proof -
    note c = main_calls_reference_based [OF Inr d i]
    from session_block(1) [OF Inr c(1)] nr have "0 < num_refs s" by simp
    from refs_of_block [OF this] nr rl c(2) show ?thesis by simp
  qed
  with nr Inr show ?thesis by simp
qed

theorem default_reference_block_size_witness:
  "references ex_args_refs = Some ''ref4'' \<and> num_references ex_args_refs = None \<and>
   num_candidates ex_args_refs = 2 \<and>
   files ex_env ''ref4'' = Some [''a b\<newline>'', ''a b\<newline>'', ''x\<newline>'', ''y\<newline>''] \<and>
   calls (fst (main ex_env ex_args_refs)) =
     [Call_reference_based [''a b'', ''a c''] [''a b'', ''a b''] None 1,
      Call_reference_based [''x'', ''y z''] [''x'', ''y''] None 1]"
proof -
  have a: "references ex_args_refs = Some ''ref4''" "num_references ex_args_refs = None"
    "num_candidates ex_args_refs = 2"
    by (simp_all add: ex_args_refs_def ex_args_def)
  have f: "files ex_env ''ref4'' = Some [''a b\<newline>'', ''a b\<newline>'', ''x\<newline>'', ''y\<newline>'']"
    by (simp add: ex_env_def ex_files_def)
  have d: "construct ex_env (decoder ex_args_refs) (metric ex_args_refs) (metric_cfg ex_args_refs) =
      Inr (DecoderReferenceBased ex_decode_first)"
    by (simp add: ex_env_def)
  have r: "main ex_env ex_args_refs =
    (\<lparr>calls = [Call_reference_based [''a b'', ''a c''] [''a b'', ''a b''] None 1,
               Call_reference_based [''x'', ''y z''] [''x'', ''y''] None 1],
      printed = [''a b'', ''x''], table = Some ''table''\<rparr>, None)"
    by code_simp
  from default_reference_block_size [OF a(1) f a(2) d] a f r show ?thesis by simp
qed


lemma take_drop_range:
  "take n (drop m xs) = map ((!) xs) [min (length xs) m ..< min (length xs) (m + n)]"
proof (rule nth_equalityI)
  show "length (take n (drop m xs)) = length (map ((!) xs) [min (length xs) m ..< min (length xs) (m + n)])"
    by (simp add: min_def) arith
next
  fix i assume "i < length (take n (drop m xs))"
  then have i: "i < n" "m + i < length xs" by auto
  then have "[min (length xs) m ..< min (length xs) (m + n)] ! i = m + i"
    by (simp add: min_def)
  moreover from i have "min (length xs) m + i < min (length xs) (m + n)"
    by (simp add: min_def)
  ultimately show "take n (drop m xs) ! i = map ((!) xs) [min (length xs) m ..< min (length xs) (m + n)] ! i"
    using i by simp
qed

lemma block_as_range:
  "take n (drop (i * n) xs) = map ((!) xs) (block_range (length xs) n i)"
  by (simp add: block_range_def take_drop_range)

lemma upt_eq_upt:
  assumes "[a..<b] = [c..<d]" and "c < d"
  shows "a = c \<and> b = d"
proof -
  from assms have ne: "[a..<b] \<noteq> []" by simp
  then have ab: "a < b" by simp
  from assms(1) have "hd [a..<b] = hd [c..<d]" by simp
  with ab assms(2) have "a = c" by simp
  moreover from assms(1) have "length [a..<b] = length [c..<d]" by simp
  ultimately show ?thesis using ab assms(2) by simp
qed

lemma block_range_eq_iff:
  assumes "0 < c" and "(i + 1) * c \<le> len" and "0 < r"
  shows "block_range len r i = block_range len c i \<longleftrightarrow>
           r = c \<or> (i = 0 \<and> c < r \<and> len = c)"
proof
  assume eq: "block_range len r i = block_range len c i"
  from assms have inside: "i * c < len" "i * c + c \<le> len" by simp_all
  then have cr: "block_range len c i = [i * c ..< i * c + c]"
    by (simp add: block_range_def min_def)
  from eq cr assms(1) upt_eq_upt [of "min len (i * r)" "min len (i * r + r)" "i * c" "i * c + c"]
  have m: "min len (i * r) = i * c" "min len (i * r + r) = i * c + c"
    by (simp_all add: block_range_def)
  from m(1) inside(1) have ir: "i * r = i * c" by (simp add: min_def split: if_splits)
  show "r = c \<or> (i = 0 \<and> c < r \<and> len = c)"
  proof (cases "i = 0")
    case False
    with ir show ?thesis by simp
  next
    case True
    with m(2) have "min len r = c" by simp
    with True show ?thesis by (auto simp: min_def split: if_splits)
  qed
next
  assume "r = c \<or> (i = 0 \<and> c < r \<and> len = c)"
  then show "block_range len r i = block_range len c i"
    by (auto simp: block_range_def)
qed

text \<open>
  C10, as the code has it. With no references file and a positive \<open>--num-references\<close>
  \<open>nr\<close>, the references of the \<open>i\<close>-th call of a reference-based decoder are the
  stripped lines of the hypotheses file at the positions \<open>i * nr\<close> to \<open>(i + 1) * nr - 1\<close>
  that the file has (the slice is clipped at the end of the file). These positions are
  those of the sentence's own candidate block exactly when \<open>nr\<close> is \<open>num_candidates\<close>, or
  when the sentence is the first one, \<open>nr\<close> is larger than \<open>num_candidates\<close> and the file
  holds that one sentence only.
\<close>

theorem reference_blocks_from_hypotheses:
  assumes "references a = None" and "num_references a = Some nr" and "0 < nr"
    and "files env (hypotheses a) = Some hs"
    and "construct env (decoder a) (metric a) (metric_cfg a) = Inr (DecoderReferenceBased d)"
  shows "\<forall>i<length (calls (fst (main env a))).
           (\<exists>sr. calls (fst (main env a)) ! i =
              Call_reference_based
                (map (\<lambda>j. strip (hs ! j)) (block_range (length hs) (nat (num_candidates a)) i))
                (map (\<lambda>j. strip (hs ! j)) (block_range (length hs) (nat nr) i))
                sr (nbest a)) \<and>
           (block_range (length hs) (nat nr) i = block_range (length hs) (nat (num_candidates a)) i
              \<longleftrightarrow> nr = num_candidates a \<or>
                   (i = 0 \<and> num_candidates a < nr \<and> length hs = nat (num_candidates a)))"
proof (cases "prepare env a")
  case (Inl e)
  then show ?thesis by (simp add: no_session_no_calls)
next
  case (Inr s)
  note p = prepare_Inr [OF Inr]
  from p(1) assms(4) have hs: "hyp_lines s = hs" by simp
  from p(8) [OF assms(1)] hs have rl: "ref_lines s = hs" by simp
  from p(7) assms(5) have d: "the_decoder s = DecoderReferenceBased d" by simp
  from p(6) assms(2,3) have nr: "num_refs s = nr" by (simp add: py_or_def)
  show ?thesis
  proof (intro allI impI)
    fix i assume i: "i < length (calls (fst (main env a)))"
    note c = main_calls_reference_based [OF Inr d i]
    note b = session_block [OF Inr c(1)]
    from b(3) hs have h: "hyps_of s i =
        map (\<lambda>j. strip (hs ! j)) (block_range (length hs) (nat (num_candidates a)) i)"
      by (simp add: block_as_range comp_def)
    from assms(3) nr have "0 < num_refs s" by simp
    from refs_of_block [OF this] nr rl have r: "refs_of s i =
        map (\<lambda>j. strip (hs ! j)) (block_range (length hs) (nat nr) i)"
      by (simp add: block_as_range comp_def)
    from b(1,2) hs assms(3)
      block_range_eq_iff [of "nat (num_candidates a)" i "length hs" "nat nr"]
    have "block_range (length hs) (nat nr) i = block_range (length hs) (nat (num_candidates a)) i
              \<longleftrightarrow> nr = num_candidates a \<or>
                   (i = 0 \<and> num_candidates a < nr \<and> length hs = nat (num_candidates a))"
      by auto
    with c(2) h r show "(\<exists>sr. calls (fst (main env a)) ! i =
              Call_reference_based
                (map (\<lambda>j. strip (hs ! j)) (block_range (length hs) (nat (num_candidates a)) i))
                (map (\<lambda>j. strip (hs ! j)) (block_range (length hs) (nat nr) i))
                sr (nbest a)) \<and>
           (block_range (length hs) (nat nr) i = block_range (length hs) (nat (num_candidates a)) i
              \<longleftrightarrow> nr = num_candidates a \<or>
                   (i = 0 \<and> num_candidates a < nr \<and> length hs = nat (num_candidates a)))"
      by simp
  qed
qed

theorem reference_blocks_from_hypotheses_witness:
  "references ex_args_nr1 = None \<and> num_references ex_args_nr1 = Some 1 \<and>
   num_candidates ex_args_nr1 = 2 \<and>
   calls (fst (main ex_env ex_args_nr1)) =
     [Call_reference_based [''a b'', ''a c''] [''a b''] None 1,
      Call_reference_based [''x'', ''y z''] [''a c''] None 1] \<and>
   block_range 4 1 1 \<noteq> block_range 4 2 1"
proof -
  have a: "references ex_args_nr1 = None" "num_references ex_args_nr1 = Some 1"
    "num_candidates ex_args_nr1 = 2" "(0::int) < 1"
    by (simp_all add: ex_args_nr1_def ex_args_def)
  have f: "files ex_env (hypotheses ex_args_nr1) =
      Some [''a b\<newline>'', '' a c \<newline>'', ''x\<newline>'', ''y z\<newline>'']"
    by (simp add: ex_env_def ex_args_nr1_def ex_args_def ex_files_def)
  have d: "construct ex_env (decoder ex_args_nr1) (metric ex_args_nr1) (metric_cfg ex_args_nr1) =
      Inr (DecoderReferenceBased ex_decode_first)"
    by (simp add: ex_env_def)
  have r: "main ex_env ex_args_nr1 =
    (\<lparr>calls = [Call_reference_based [''a b'', ''a c''] [''a b''] None 1,
               Call_reference_based [''x'', ''y z''] [''a c''] None 1],
      printed = [''a b'', ''x''], table = Some ''table''\<rparr>, None)"
    by code_simp
  have i: "1 < length (calls (fst (main ex_env ex_args_nr1)))" by (simp add: r)
  from reference_blocks_from_hypotheses [OF a(1) a(2) a(4) f d, rule_format, OF i] a(3)
  have "block_range 4 1 1 \<noteq> block_range 4 2 1" by (simp add: block_range_def)
  with a r show ?thesis by simp
qed

text \<open>
  C10 as stated fails: with two candidates, three references asked for and a hypotheses
  file of one sentence, the references are the sentence's own candidate block although
  \<open>num_references\<close> differs from \<open>num_candidates\<close>.
\<close>

theorem reference_blocks_counterexample:
  "references ex_args_nr3 = None \<and> num_references ex_args_nr3 = Some 3 \<and>
   num_candidates ex_args_nr3 = 2 \<and>
   main ex_env ex_args_nr3 =
     (\<lparr>calls = [Call_reference_based [''a'', ''bb''] [''a'', ''bb''] None 1],
       printed = [''a''], table = Some ''table''\<rparr>, None)"
proof -
  have "main ex_env ex_args_nr3 =
     (\<lparr>calls = [Call_reference_based [''a'', ''bb''] [''a'', ''bb''] None 1],
       printed = [''a''], table = Some ''table''\<rparr>, None)"
    by code_simp
  then show ?thesis by (simp add: ex_args_nr3_def ex_args_def)
qed


section \<open>Reference-free decoding without a source\<close>

lemma for_loop_same_fault:
  assumes "\<And>i. f r i = (r, Some e)"
  shows "for_loop f js r = (if js = [] then (r, None) else (r, Some e))"
  using assms by (cases js) simp_all

lemma prepare_succeeds:
  assumes "source a = None" and "files env (hypotheses a) = Some hs"
    and "\<forall>p. references a = Some p \<longrightarrow> files env p \<noteq> None"
    and "construct env (decoder a) (metric a) (metric_cfg a) = Inr dec"
    and "num_candidates a \<noteq> 0" and "num_candidates a dvd int (length hs)"
  shows "\<exists>s. prepare env a = Inr s"
  using assms
  by (cases "references a") (auto simp: prepare_def readlines_def)

text \<open>
  C5, as the code has it. With a reference-free decoder and no source file, \<open>decode\<close> is
  never called and nothing is printed. When everything before the loop succeeds and the
  hypotheses file is not empty, the run ends with the \<open>TypeError\<close> of \<open>sources[0]\<close> on
  \<open>None\<close>, raised in the first pass before the call of \<open>decode\<close>. When everything
  before the loop succeeds and the hypotheses file is empty, there is no pass and the
  missing source raises nothing: the run ends as the timing report does, and normally
  under \<open>--quiet\<close>.
\<close>

theorem no_source_reference_free:
  assumes "source a = None"
    and "construct env (decoder a) (metric a) (metric_cfg a) = Inr (DecoderReferenceless d)"
  shows "calls (fst (main env a)) = [] \<and> printed (fst (main env a)) = [] \<and>
         (\<forall>hs. files env (hypotheses a) = Some hs \<and> hs \<noteq> [] \<and>
               0 < num_candidates a \<and> num_candidates a dvd int (length hs) \<and>
               (\<forall>p. references a = Some p \<longrightarrow> files env p \<noteq> None)
               \<longrightarrow> snd (main env a) = Some TypeError) \<and>
         (files env (hypotheses a) = Some [] \<and> num_candidates a \<noteq> 0 \<and>
               (\<forall>p. references a = Some p \<longrightarrow> files env p \<noteq> None)
               \<longrightarrow> snd (main env a) =
                     (if quiet a then None
                      else (case timer_table env 0 (report a) (width a) of
                              Inl e \<Rightarrow> Some e
                            | Inr t \<Rightarrow> None)))"
proof (cases "prepare env a")
  case (Inl e)
  then have m: "main env a = (run_empty, Some e)" by (rule main_prepare_Inl)
  have no: False
    if h: "files env (hypotheses a) = Some hs" "0 < num_candidates a"
      "num_candidates a dvd int (length hs)"
      "\<forall>p. references a = Some p \<longrightarrow> files env p \<noteq> None" for hs
  proof -
    from h(2) have "num_candidates a \<noteq> 0" by simp
    from prepare_succeeds [OF assms(1) h(1) h(4) assms(2) this h(3)] Inl show False by simp
  qed
  have no_empty: False
    if h: "files env (hypotheses a) = Some []" "num_candidates a \<noteq> 0"
      "\<forall>p. references a = Some p \<longrightarrow> files env p \<noteq> None"
  proof -
    have "num_candidates a dvd int (length ([] :: string list))" by simp
    from prepare_succeeds [OF assms(1) h(1) h(3) assms(2) h(2) this] Inl show False by simp
  qed
  from m have "calls (fst (main env a)) = [] \<and> printed (fst (main env a)) = []"
    by (simp add: run_empty_def)
  with no no_empty show ?thesis by blast
next
  case (Inr s)
  note p = prepare_Inr [OF Inr]
  from p(7) assms(2) have d: "the_decoder s = DecoderReferenceless d" by simp
  from p(10) [OF assms(1)] d have b: "body s (nbest a) r i = (r, Some TypeError)" for r i
    by (simp add: body_def)
  have l: "for_loop (body s (nbest a)) js run_empty =
      (if js = [] then (run_empty, None) else (run_empty, Some TypeError))" for js
    by (rule for_loop_same_fault) (rule b)
  have m: "main env a =
      (if [0..<nat (num_sents s)] = []
       then (if quiet a then (run_empty, None)
             else (case timer_table env (num_sents s) (report a) (width a) of
                     Inl e \<Rightarrow> (run_empty, Some e)
                   | Inr t \<Rightarrow> (run_empty\<lparr>table := Some t\<rparr>, None)))
       else (run_empty, Some TypeError))"
    by (simp add: main_def Inr l)
  have cp: "calls (fst (main env a)) = [] \<and> printed (fst (main env a)) = []"
    unfolding m by (simp add: run_empty_def split: sum.splits)
  have "snd (main env a) = Some TypeError"
    if h: "files env (hypotheses a) = Some hs" "hs \<noteq> []" "0 < num_candidates a"
      "num_candidates a dvd int (length hs)" for hs
  proof -
    from p(1) h(1) have hs: "hyp_lines s = hs" by simp
    from h(2) have "0 < int (length hs)" by simp
    with h(3,4) have "num_candidates a \<le> int (length hs)" by (simp add: zdvd_imp_le)
    with h(3) have "0 < int (length hs) div num_candidates a"
      by (simp add: pos_imp_zdiv_pos_iff)
    with p(4) hs have "[0..<nat (num_sents s)] \<noteq> []" by simp
    then show ?thesis unfolding m by simp
  qed
  moreover have "snd (main env a) =
      (if quiet a then None
       else (case timer_table env 0 (report a) (width a) of Inl e \<Rightarrow> Some e | Inr t \<Rightarrow> None))"
    if h: "files env (hypotheses a) = Some []"
  proof -
    from p(1) h have "hyp_lines s = []" by simp
    with p(4) have "num_sents s = 0" by simp
    then show ?thesis unfolding m by (simp split: sum.splits)
  qed
  ultimately show ?thesis using cp by blast
qed


theorem no_source_reference_free_witness:
  "source ex_args_qe_no_source = None \<and>
   construct ex_env_qe (decoder ex_args_qe_no_source) (metric ex_args_qe_no_source)
       (metric_cfg ex_args_qe_no_source) =
     Inr (DecoderReferenceless
            (decode_referenceless_spec (MetricCOMETQE_scores ex_predict Config_default))) \<and>
   main ex_env_qe ex_args_qe_no_source = (run_empty, Some TypeError) \<and>
   source ex_args_qe_empty = None \<and>
   files ex_env_qe (hypotheses ex_args_qe_empty) = Some [] \<and>
   quiet ex_args_qe_empty \<and>
   snd (main ex_env_qe ex_args_qe_empty) = None"
proof -
  have a: "source ex_args_qe_no_source = None"
    by (simp add: ex_args_qe_no_source_def ex_args_def)
  have d: "construct ex_env_qe (decoder ex_args_qe_no_source) (metric ex_args_qe_no_source)
       (metric_cfg ex_args_qe_no_source) =
     Inr (DecoderReferenceless
            (decode_referenceless_spec (MetricCOMETQE_scores ex_predict Config_default)))"
    by (simp add: ex_env_qe_def ex_args_qe_no_source_def ex_args_def metric_cfg_def
                  MetricCOMETQE_Config_def)
  have f: "files ex_env_qe (hypotheses ex_args_qe_no_source) =
      Some [''a b\<newline>'', '' a c \<newline>'', ''x\<newline>'', ''y z\<newline>''] \<and>
      [''a b\<newline>'', '' a c \<newline>'', ''x\<newline>'', ''y z\<newline>''] \<noteq> [] \<and>
      0 < num_candidates ex_args_qe_no_source \<and>
      num_candidates ex_args_qe_no_source dvd
        int (length [''a b\<newline>'', '' a c \<newline>'', ''x\<newline>'', ''y z\<newline>'']) \<and>
      (\<forall>p. references ex_args_qe_no_source = Some p \<longrightarrow> files ex_env_qe p \<noteq> None)"
    by (simp add: ex_env_qe_def ex_args_qe_no_source_def ex_args_def ex_files_def)
  from no_source_reference_free [OF a d] f
  have "calls (fst (main ex_env_qe ex_args_qe_no_source)) = []"
    "printed (fst (main ex_env_qe ex_args_qe_no_source)) = []"
    "snd (main ex_env_qe ex_args_qe_no_source) = Some TypeError"
    by blast+
  moreover have "table (fst (main ex_env_qe ex_args_qe_no_source)) = None"
    by code_simp
  ultimately have m: "main ex_env_qe ex_args_qe_no_source = (run_empty, Some TypeError)"
    by (cases "main ex_env_qe ex_args_qe_no_source") (simp add: run_empty_def)
  have a': "source ex_args_qe_empty = None"
    by (simp add: ex_args_qe_empty_def ex_args_def)
  have d': "construct ex_env_qe (decoder ex_args_qe_empty) (metric ex_args_qe_empty)
       (metric_cfg ex_args_qe_empty) =
     Inr (DecoderReferenceless
            (decode_referenceless_spec (MetricCOMETQE_scores ex_predict Config_default)))"
    by (simp add: ex_env_qe_def ex_args_qe_empty_def ex_args_def metric_cfg_def
                  MetricCOMETQE_Config_def)
  have f': "files ex_env_qe (hypotheses ex_args_qe_empty) = Some []"
    "num_candidates ex_args_qe_empty \<noteq> 0"
    "\<forall>p. references ex_args_qe_empty = Some p \<longrightarrow> files ex_env_qe p \<noteq> None"
    "quiet ex_args_qe_empty"
    by (simp_all add: ex_env_qe_def ex_args_qe_empty_def ex_args_def ex_files_def)
  from no_source_reference_free [OF a' d'] f'
  have "snd (main ex_env_qe ex_args_qe_empty) = None"
    by simp
  with a d m a' f'(1,4) show ?thesis by blast
qed

text \<open>
  C5 as stated fails: with an empty hypotheses file there is no pass of the loop, and the
  run without a source ends without any fault.
\<close>

theorem no_source_counterexample:
  "source ex_args_qe_empty = None \<and>
   construct ex_env_qe (decoder ex_args_qe_empty) (metric ex_args_qe_empty)
       (metric_cfg ex_args_qe_empty) =
     Inr (DecoderReferenceless
            (decode_referenceless_spec (MetricCOMETQE_scores ex_predict Config_default))) \<and>
   main ex_env_qe ex_args_qe_empty = (run_empty, None) \<and>
   exit_status (main ex_env_qe ex_args_qe_empty) = 0"
proof -
  have a: "source ex_args_qe_empty = None"
    by (simp add: ex_args_qe_empty_def ex_args_def)
  have d: "construct ex_env_qe (decoder ex_args_qe_empty) (metric ex_args_qe_empty)
       (metric_cfg ex_args_qe_empty) =
     Inr (DecoderReferenceless
            (decode_referenceless_spec (MetricCOMETQE_scores ex_predict Config_default)))"
    by (simp add: ex_env_qe_def ex_args_qe_empty_def ex_args_def metric_cfg_def
                  MetricCOMETQE_Config_def)
  have m: "main ex_env_qe ex_args_qe_empty = (run_empty, None)"
    by code_simp
  with a d show ?thesis by (simp add: exit_status_def)
qed

section \<open>The specification's decoder\<close>

lemma ranks_before_trans: "ranks_before x y \<Longrightarrow> ranks_before y z \<Longrightarrow> ranks_before x z"
  by (auto simp: ranks_before_def)

lemma ranks_before_total: "\<not> ranks_before x y \<Longrightarrow> snd x \<noteq> snd y \<Longrightarrow> ranks_before y x"
  by (auto simp: ranks_before_def)

lemma set_insert_ranked: "set (insert_ranked x ys) = insert x (set ys)"
  by (induction ys) auto

lemma length_insert_ranked: "length (insert_ranked x ys) = Suc (length ys)"
  by (induction ys) auto

lemma distinct_insert_ranked:
  "distinct (map snd (insert_ranked x ys)) \<longleftrightarrow> snd x \<notin> snd ` set ys \<and> distinct (map snd ys)"
  by (induction ys) (auto simp: set_insert_ranked)

lemma sorted_insert_ranked:
  assumes "sorted_wrt ranks_before ys" and "snd x \<notin> snd ` set ys"
  shows "sorted_wrt ranks_before (insert_ranked x ys)"
  using assms
proof (induction ys)
  case Nil
  then show ?case by simp
next
  case (Cons y ys)
  show ?case
  proof (cases "ranks_before x y")
    case True
    with Cons.prems show ?thesis
      by (auto intro: ranks_before_trans)
  next
    case False
    with Cons.prems have "ranks_before y x"
      by (auto intro: ranks_before_total)
    with False Cons show ?thesis
      by (auto simp: set_insert_ranked)
  qed
qed

lemma foldr_insert_ranked:
  assumes "distinct (map snd ps)"
  shows "set (foldr insert_ranked ps []) = set ps \<and>
         length (foldr insert_ranked ps []) = length ps \<and>
         distinct (map snd (foldr insert_ranked ps [])) \<and>
         sorted_wrt ranks_before (foldr insert_ranked ps [])"
  using assms
proof (induction ps)
  case Nil
  then show ?case by simp
next
  case (Cons p ps)
  then have ih: "set (foldr insert_ranked ps []) = set ps"
    "length (foldr insert_ranked ps []) = length ps"
    "distinct (map snd (foldr insert_ranked ps []))"
    "sorted_wrt ranks_before (foldr insert_ranked ps [])"
    by simp_all
  from Cons.prems have new: "snd p \<notin> snd ` set (foldr insert_ranked ps [])"
    by (simp add: ih(1))
  show ?case
    using ih new
    by (simp add: set_insert_ranked length_insert_ranked distinct_insert_ranked
                  sorted_insert_ranked)
qed

lemma ranking_props:
  "set (ranking v) = set (zip v [0..<length v])"
  "length (ranking v) = length v"
  "distinct (map snd (ranking v))"
  "sorted_wrt ranks_before (ranking v)"
proof -
  have "distinct (map snd (zip v [0..<length v]))" by simp
  from foldr_insert_ranked [OF this]
  show "set (ranking v) = set (zip v [0..<length v])"
    "length (ranking v) = length v"
    "distinct (map snd (ranking v))"
    "sorted_wrt ranks_before (ranking v)"
    by (simp_all add: ranking_def)
qed

lemma ranking_index: "x \<in> set (ranking v) \<Longrightarrow> snd x < length v"
  by (cases x) (auto simp: ranking_props(1) dest: set_zip_rightD)

lemma decode_referenceless_spec_ok:
  assumes "decode_referenceless_spec scores hyps src_text n = Inr out"
  shows "1 \<le> n \<and> hyps \<noteq> [] \<and> ranked_result_ok hyps n out"
proof -
  from assms have n: "1 \<le> n" and h: "hyps \<noteq> []"
    by (auto simp: decode_referenceless_spec_def split: if_splits)
  from assms n h obtain v where v: "scores hyps src_text = Inr v" "length v = length hyps"
    and out: "out = \<lparr>idx = map snd (take (nat n) (ranking v)),
                     sentence = map (\<lambda>x. hyps ! snd x) (take (nat n) (ranking v)),
                     score = map fst (take (nat n) (ranking v))\<rparr>"
    by (auto simp: decode_referenceless_spec_def Let_def split: if_splits sum.splits)
  let ?top = "take (nat n) (ranking v)"
  have "length (map snd ?top) = min (nat n) (length hyps)"
    by (simp add: ranking_props(2) v(2) min.commute)
  moreover have "distinct (map snd ?top)"
    using ranking_props(3) [of v] by (simp add: take_map [symmetric] distinct_take del: take_map)
  moreover have "list_all (\<lambda>j. j < length hyps) (map snd ?top)"
    using ranking_index [of _ v] v(2) by (auto simp: list_all_iff dest: in_set_takeD)
  moreover have "sorted_wrt ranks_before (zip (map fst ?top) (map snd ?top))"
    using ranking_props(4) [of v] by (simp add: zip_map_fst_snd sorted_wrt_take)
  ultimately have "ranked_result_ok hyps n out"
    by (simp add: ranked_result_ok_def out comp_def)
  with n h show ?thesis by simp
qed

lemma decode_referenceless_spec_meets_spec:
  "decoder_meets_spec (DecoderReferenceless (decode_referenceless_spec scores))"
  by (simp add: decoder_meets_spec_def decode_referenceless_spec_ok)


section \<open>Printed lines\<close>

lemma length_concat_blocks:
  assumes "\<And>i. i < k \<Longrightarrow> length (f i) = m"
  shows "length (concat (map f [0..<k])) = k * m"
  using assms by (induction k) simp_all

lemma decode_at_meets_spec:
  assumes "decoder_meets_spec (the_decoder s)" and "decode_at s n i = Inr out"
  shows "1 \<le> n \<and> hyps_of s i \<noteq> [] \<and> ranked_result_ok (hyps_of s i) n out"
  using assms
  by (cases "the_decoder s") (auto simp: decoder_meets_spec_def decode_at_def)

text \<open>
  C6, against the decoders as the specification describes them. On a run that ends
  without a fault, with a decoder whose results are ranked results in the spec's sense,
  the printed strings are those of the sentences in order, and sentence \<open>i\<close> contributes
  the texts of its selected hypotheses in the order of the ranked result:
  \<open>min(nbest, num_candidates)\<close> strings, which is \<open>nbest\<close> when \<open>nbest\<close> is at most
  \<open>num_candidates\<close>.
\<close>

theorem nbest_lines_per_sentence:
  assumes "prepare env a = Inr s" and "decoder_meets_spec (the_decoder s)"
    and "snd (main env a) = None"
  shows "printed (fst (main env a)) =
           concat (map (lines_at s (nbest a)) [0..<nat (num_sents s)]) \<and>
         (\<forall>i<nat (num_sents s).
            \<exists>out. decode_at s (nbest a) i = Inr out \<and>
                  ranked_result_ok (hyps_of s i) (nbest a) out \<and>
                  lines_at s (nbest a) i = map ((!) (hyps_of s i)) (idx out) \<and>
                  length (lines_at s (nbest a) i) =
                    min (nat (nbest a)) (nat (num_candidates a))) \<and>
         length (printed (fst (main env a))) =
           nat (num_sents s) * min (nat (nbest a)) (nat (num_candidates a))"
proof -
  note ms = main_success [OF assms(1,3)]
  have blk: "\<exists>out. decode_at s (nbest a) i = Inr out \<and>
                  ranked_result_ok (hyps_of s i) (nbest a) out \<and>
                  lines_at s (nbest a) i = map ((!) (hyps_of s i)) (idx out) \<and>
                  length (lines_at s (nbest a) i) =
                    min (nat (nbest a)) (nat (num_candidates a))"
    if i: "i < nat (num_sents s)" for i
  proof -
    from ms i obtain out where out: "decode_at s (nbest a) i = Inr out" by blast
    from decode_at_meets_spec [OF assms(2) out]
    have ok: "ranked_result_ok (hyps_of s i) (nbest a) out" by simp
    note b = session_block [OF assms(1) i]
    from b(2,3) have len: "length (hyps_of s i) = nat (num_candidates a)" by simp
    from out have l: "lines_at s (nbest a) i = sentence out" by (simp add: lines_at_def)
    from ok have "sentence out = map ((!) (hyps_of s i)) (idx out)"
      "length (idx out) = min (nat (nbest a)) (length (hyps_of s i))"
      by (simp_all add: ranked_result_ok_def)
    with out ok l len show ?thesis by simp
  qed
  then have "length (lines_at s (nbest a) i) = min (nat (nbest a)) (nat (num_candidates a))"
    if "i < nat (num_sents s)" for i
    using that by blast
  then have "length (concat (map (lines_at s (nbest a)) [0..<nat (num_sents s)])) =
      nat (num_sents s) * min (nat (nbest a)) (nat (num_candidates a))"
    by (rule length_concat_blocks)
  with ms blk show ?thesis by simp
qed

theorem nbest_lines_per_sentence_witness:
  "nbest ex_args_qe = 1 \<and> num_candidates ex_args_qe = 2 \<and>
   snd (main ex_env_qe ex_args_qe) = None \<and>
   printed (fst (main ex_env_qe ex_args_qe)) = [''a b'', ''y z''] \<and>
   length (printed (fst (main ex_env_qe ex_args_qe))) = 2 * min (nat 1) (nat 2)"
proof -
  have a: "nbest ex_args_qe = 1" "num_candidates ex_args_qe = 2"
    by (simp_all add: ex_args_qe_def ex_args_def)
  have "\<exists>s. prepare ex_env_qe ex_args_qe = Inr s"
    by (simp add: prepare_def readlines_def ex_env_qe_def ex_args_qe_def ex_args_def ex_files_def)
  then obtain s where s: "prepare ex_env_qe ex_args_qe = Inr s" ..
  from prepare_Inr(7) [OF s] have "the_decoder s = DecoderReferenceless
      (decode_referenceless_spec
        (MetricCOMETQE_scores ex_predict (MetricCOMETQE_Config (metric_cfg ex_args_qe))))"
    by (simp add: ex_env_qe_def)
  then have dm: "decoder_meets_spec (the_decoder s)"
    by (simp only: decode_referenceless_spec_meets_spec)
  have r: "main ex_env_qe ex_args_qe =
    (\<lparr>calls = [Call_referenceless [''a b'', ''a c''] ''s one'' 1,
               Call_referenceless [''x'', ''y z''] ''s two'' 1],
      printed = [''a b'', ''y z''], table = Some ''table''\<rparr>, None)"
    by code_simp
  then have ok: "snd (main ex_env_qe ex_args_qe) = None" by simp
  have ns: "num_sents s = 2"
  proof -
    from prepare_Inr(1) [OF s]
    have "hyp_lines s = [''a b\<newline>'', '' a c \<newline>'', ''x\<newline>'', ''y z\<newline>'']"
      by (simp add: ex_env_qe_def ex_args_qe_def ex_args_def ex_files_def)
    with prepare_Inr(4) [OF s] a(2) show ?thesis by simp
  qed
  from nbest_lines_per_sentence [OF s dm ok]
  have "length (printed (fst (main ex_env_qe ex_args_qe))) =
      nat (num_sents s) * min (nat (nbest ex_args_qe)) (nat (num_candidates ex_args_qe))"
    by blast
  then have "length (printed (fst (main ex_env_qe ex_args_qe))) = 2 * min (nat 1) (nat 2)"
    unfolding ns a by simp
  moreover from r have "printed (fst (main ex_env_qe ex_args_qe)) = [''a b'', ''y z'']"
    by simp
  ultimately show ?thesis using a ok by blast
qed

text \<open>
  C6 as stated fails against such a decoder: with two candidates per sentence and
  \<open>--nbest 3\<close> the ranked result has two entries, and two strings are printed for the
  sentence, not three.
\<close>

theorem nbest_lines_counterexample:
  "nbest ex_args_qe_3best = 3 \<and> num_candidates ex_args_qe_3best = 2 \<and>
   main ex_env_qe ex_args_qe_3best =
     (\<lparr>calls = [Call_referenceless [''a'', ''bb''] ''s'' 3],
       printed = [''bb'', ''a''], table = Some ''table''\<rparr>, None)"
proof -
  have "main ex_env_qe ex_args_qe_3best =
     (\<lparr>calls = [Call_referenceless [''a'', ''bb''] ''s'' 3],
       printed = [''bb'', ''a''], table = Some ''table''\<rparr>, None)"
    by code_simp
  then show ?thesis by (simp add: ex_args_qe_3best_def ex_args_def)
qed


section \<open>The metric's configuration\<close>

lemma prepare_construct_fault:
  assumes "construct env (decoder a) (metric a) (metric_cfg a) = Inl e"
    and "files env (hypotheses a) \<noteq> None"
    and "\<forall>p. source a = Some p \<longrightarrow> files env p \<noteq> None"
    and "\<forall>p. references a = Some p \<longrightarrow> files env p \<noteq> None"
  shows "prepare env a = Inl e"
  using assms
  by (cases "source a"; cases "references a") (auto simp: prepare_def readlines_def)

text \<open>
  C9. The COMET-QE metric is registered as \<open>comet_qe\<close>, which is neither of the two names
  the command line compares with. When it is the chosen metric, no keyword reaches its
  \<open>Config\<close>, so the metric is built with the default configuration: the decoder that the
  loop uses is the one constructed without keywords (its calls and their printed results
  make up a run without fault), a fault of that construction is the fault of the run, the run is the same as in surroundings whose construction never sees
  a keyword, and it is the same whatever \<open>--batch-size\<close> and \<open>--fp16\<close> are.
\<close>

theorem comet_qe_default_config:
  assumes "metric a = MetricCOMETQE_name"
  shows "metric_cfg a = None \<and> MetricCOMETQE_Config (metric_cfg a) = Config_default \<and>
         (\<forall>s. prepare env a = Inr s \<longrightarrow>
              construct env (decoder a) MetricCOMETQE_name None = Inr (the_decoder s)) \<and>
         (\<forall>s. prepare env a = Inr s \<and> snd (main env a) = None \<longrightarrow>
              calls (fst (main env a)) = map (call_at s (nbest a)) [0..<nat (num_sents s)] \<and>
              printed (fst (main env a)) =
                concat (map (lines_at s (nbest a)) [0..<nat (num_sents s)])) \<and>
         (\<forall>e. construct env (decoder a) MetricCOMETQE_name None = Inl e \<and>
              files env (hypotheses a) \<noteq> None \<and>
              (\<forall>p. source a = Some p \<longrightarrow> files env p \<noteq> None) \<and>
              (\<forall>p. references a = Some p \<longrightarrow> files env p \<noteq> None)
              \<longrightarrow> main env a = (run_empty, Some e)) \<and>
         main env a = main (env\<lparr>construct := \<lambda>d m kw. construct env d m None\<rparr>) a \<and>
         main env (a\<lparr>arg_batch_size := b, fp16 := f\<rparr>) = main env a"
proof -
  have k: "metric_cfg a = None" "metric_cfg (a\<lparr>arg_batch_size := b, fp16 := f\<rparr>) = None"
    using assms by (simp_all add: metric_cfg_def MetricCOMETQE_name_def)
  have c: "MetricCOMETQE_Config (metric_cfg a) = Config_default"
    by (simp add: k MetricCOMETQE_Config_def)
  have s: "construct env (decoder a) MetricCOMETQE_name None = Inr (the_decoder s)"
    if "prepare env a = Inr s" for s
    using prepare_Inr(7) [OF that] assms k by simp
  have e: "main env a = (run_empty, Some e)"
    if "construct env (decoder a) MetricCOMETQE_name None = Inl e"
      "files env (hypotheses a) \<noteq> None"
      "\<forall>p. source a = Some p \<longrightarrow> files env p \<noteq> None"
      "\<forall>p. references a = Some p \<longrightarrow> files env p \<noteq> None" for e
  proof -
    from that(1) assms k have "construct env (decoder a) (metric a) (metric_cfg a) = Inl e"
      by simp
    from prepare_construct_fault [OF this that(2,3,4)] show ?thesis
      by (rule main_prepare_Inl)
  qed
  have "prepare (env\<lparr>construct := \<lambda>d m kw. construct env d m None\<rparr>) a = prepare env a"
    unfolding prepare_def k by (simp cong: sum.case_cong option.case_cong if_cong)
  then have n: "main env a = main (env\<lparr>construct := \<lambda>d m kw. construct env d m None\<rparr>) a"
    unfolding main_def by (simp cong: sum.case_cong prod.case_cong option.case_cong if_cong)
  have "prepare env (a\<lparr>arg_batch_size := b, fp16 := f\<rparr>) = prepare env a"
    unfolding prepare_def k by (simp cong: sum.case_cong option.case_cong if_cong)
  then have o: "main env (a\<lparr>arg_batch_size := b, fp16 := f\<rparr>) = main env a"
    unfolding main_def by (simp cong: sum.case_cong prod.case_cong option.case_cong if_cong)
  have u: "calls (fst (main env a)) = map (call_at s (nbest a)) [0..<nat (num_sents s)] \<and>
      printed (fst (main env a)) = concat (map (lines_at s (nbest a)) [0..<nat (num_sents s)])"
    if "prepare env a = Inr s" "snd (main env a) = None" for s
    using main_success [OF that] by simp
  from k(1) c s u e n o show ?thesis by blast
qed

theorem comet_qe_default_config_witness:
  "metric ex_args_comet_qe = MetricCOMETQE_name \<and>
   arg_batch_size ex_args_comet_qe = 8 \<and> fp16 ex_args_comet_qe \<and>
   metric_cfg ex_args_comet_qe = None \<and>
   batch_size (MetricCOMETQE_Config (metric_cfg ex_args_comet_qe)) = 64 \<and>
   \<not> float16 (MetricCOMETQE_Config (metric_cfg ex_args_comet_qe)) \<and>
   MetricCOMETQE_scores ex_predict_64 (MetricCOMETQE_Config (Some (8, True))) [''a b'', ''a c'']
       ''s one'' = Inl (External ''batch size'') \<and>
   main ex_env_qe_64 ex_args_comet_qe =
     (\<lparr>calls = [Call_referenceless [''a b'', ''a c''] ''s one'' 1,
                Call_referenceless [''x'', ''y z''] ''s two'' 1],
       printed = [''a b'', ''y z''], table = Some ''table''\<rparr>, None) \<and>
   main ex_env_no_model ex_args_comet_qe = (run_empty, Some (External ''no model''))"
proof -
  have m: "metric ex_args_comet_qe = MetricCOMETQE_name"
    by (simp add: ex_args_comet_qe_def ex_args_def MetricCOMETQE_name_def)
  have o: "arg_batch_size ex_args_comet_qe = 8 \<and> fp16 ex_args_comet_qe"
    by (simp add: ex_args_comet_qe_def)
  note t = comet_qe_default_config [OF m]
  from t have c: "metric_cfg ex_args_comet_qe = None"
    "MetricCOMETQE_Config (metric_cfg ex_args_comet_qe) = Config_default"
    by blast+
  have b: "MetricCOMETQE_scores ex_predict_64 (MetricCOMETQE_Config (Some (8, True)))
      [''a b'', ''a c''] ''s one'' = Inl (External ''batch size'')"
    by (simp add: MetricCOMETQE_scores_def MetricCOMETQE_Config_def Config_default_def
                  ex_predict_64_def)
  have r: "main ex_env_qe_64 ex_args_comet_qe =
     (\<lparr>calls = [Call_referenceless [''a b'', ''a c''] ''s one'' 1,
                Call_referenceless [''x'', ''y z''] ''s two'' 1],
       printed = [''a b'', ''y z''], table = Some ''table''\<rparr>, None)"
    by code_simp
  have q: "construct ex_env_no_model (decoder ex_args_comet_qe) MetricCOMETQE_name None =
        Inl (External ''no model'') \<and>
      files ex_env_no_model (hypotheses ex_args_comet_qe) \<noteq> None \<and>
      (\<forall>p. source ex_args_comet_qe = Some p \<longrightarrow> files ex_env_no_model p \<noteq> None) \<and>
      (\<forall>p. references ex_args_comet_qe = Some p \<longrightarrow> files ex_env_no_model p \<noteq> None)"
    by (simp add: ex_env_no_model_def ex_args_comet_qe_def ex_args_def ex_files_def)
  from comet_qe_default_config [OF m, of ex_env_no_model] q
  have n: "main ex_env_no_model ex_args_comet_qe = (run_empty, Some (External ''no model''))"
    by blast
  from m o c b r n show ?thesis by (simp add: Config_default_def)
qed

end
